theory Spec2Isabelle
  imports Main "HOL-Library.Word"
begin

unbundle bit_operations_syntax

section \<open>IFF chunks over a seekable byte source (chunk.go)\<close>

subsection \<open>Values, errors and the source interface\<close>

text \<open>
  Go's \<open>byte\<close>, \<open>uint32\<close> and \<open>int64\<close> are words of the same width; arithmetic on
  them wraps, \<open>uint32(x)\<close> and \<open>int64(x)\<close> on an unsigned operand are \<open>ucast\<close>
  (truncation, zero extension), and the comparisons of \<open>int64\<close> values are the
  signed ones (\<open><s\<close>). The \<open>whence\<close> argument is only compared with constants
  and is an \<open>int\<close>.
\<close>

type_synonym byte = "8 word"
type_synonym uint32 = "32 word"
type_synonym int64 = "64 word"

text \<open>
  A Go \<open>error\<close> value: the sentinel \<open>io.EOF\<close>, or an error made by
  \<open>errors.New\<close> with its message. \<open>nil\<close> is \<open>None\<close> of \<open>error option\<close>.
\<close>

datatype error = EOF | ErrorString string

text \<open>
  \<open>io.ReadSeeker\<close> is an interface; a value of it is a method table and the
  object the methods work on. The method table is a record of two functions over the
  object's state \<open>'s\<close>, and every call returns the new state next to its results.

  \<^item> \<open>Read_src rs f k\<close> is \<open>f.Read(p)\<close> with \<open>len(p) = k\<close>: it returns the bytes
    the source stored in \<open>p[0:n]\<close> (so \<open>n\<close> is the length of that list) and the
    error.
  \<^item> \<open>Seek_src rs f offset whence\<close> is \<open>f.Seek(offset, whence)\<close>: the reported
    position and the error.
\<close>

record 's ReadSeeker =
  Read_src :: "'s \<Rightarrow> nat \<Rightarrow> (byte list \<times> error option) \<times> 's"
  Seek_src :: "'s \<Rightarrow> int64 \<Rightarrow> int \<Rightarrow> (int64 \<times> error option) \<times> 's"

subsection \<open>The chunk\<close>

text \<open>
  \<open>type Chunk struct { file io.ReadSeeker; id string; size, base, offset uint32 }\<close>.
  The field \<open>file\<close> holds the state of the source the chunk points to; the method
  table of that interface value is the argument \<open>rs\<close> of every operation. The
  fields \<open>file\<close>, \<open>id\<close> and \<open>size\<close> carry a prime: the first is a keyword of
  Isabelle, the others are constants of HOL.
\<close>

record 's Chunk =
  file' :: 's
  id' :: "byte list"
  size' :: uint32
  base :: uint32
  offset :: uint32

text \<open>
  The size field of the header:
  \<open>uint32(b[0])<<24 | uint32(b[1])<<16 | uint32(b[2])<<8 | uint32(b[3])\<close>.
\<close>

definition sizeOf :: "byte list \<Rightarrow> uint32" where
  "sizeOf sizeBits =
     push_bit 24 (ucast (sizeBits ! 0)) OR push_bit 16 (ucast (sizeBits ! 1))
       OR push_bit 8 (ucast (sizeBits ! 2)) OR ucast (sizeBits ! 3)"

text \<open>
  \<open>New\<close> returns the pair \<open>(*Chunk, error)\<close> and the state the source is left in.
  Both header reads fail on \<open>n != 4 || err != nil\<close> and return \<open>nil, err\<close> with
  the error of that read; the error of \<open>f.Seek(0, 1)\<close> is dropped.
\<close>

definition New :: "'s ReadSeeker \<Rightarrow> 's \<Rightarrow> ('s Chunk option \<times> error option) \<times> 's" where
  "New rs f =
     (case Read_src rs f 4 of ((ident, err), f1) \<Rightarrow>
        if length ident \<noteq> 4 \<or> err \<noteq> None then ((None, err), f1)
        else
          (case Read_src rs f1 4 of ((sizeBits, err2), f2) \<Rightarrow>
             if length sizeBits \<noteq> 4 \<or> err2 \<noteq> None then ((None, err2), f2)
             else
               (case Seek_src rs f2 0 1 of ((b, _), f3) \<Rightarrow>
                  ((Some \<lparr>file' = f3, id' = ident, size' = sizeOf sizeBits,
                          base = ucast b, offset = 0\<rparr>, None), f3))))"

definition Name :: "'s Chunk \<Rightarrow> byte list" where
  "Name this = id' this"

definition Size :: "'s Chunk \<Rightarrow> uint32" where
  "Size this = size' this"

text \<open>
  \<open>Seek\<close>: the \<open>switch\<close> on \<open>whence\<close> has the cases 1 and 2 only. The sum is an
  \<open>int64\<close> sum.
\<close>

definition Seek_target :: "'s Chunk \<Rightarrow> int64 \<Rightarrow> int \<Rightarrow> int64" where
  "Seek_target this off whence =
     (if whence = 1 then off + ucast (offset this)
      else if whence = 2 then off + ucast (size' this)
      else off)"

definition Seek :: "'s ReadSeeker \<Rightarrow> 's Chunk \<Rightarrow> int64 \<Rightarrow> int \<Rightarrow> (int64 \<times> error option) \<times> 's Chunk" where
  "Seek rs this off whence =
     (let t = Seek_target this off whence in
      if t <s 0 \<or> ucast (size' this) <s t
      then ((ucast (offset this), Some (ErrorString ''Invalid seek offset'')), this)
      else
        (case Seek_src rs (file' this) (ucast (base this) + t) 0 of ((pos, err), f1) \<Rightarrow>
           if err \<noteq> None then ((pos - ucast (base this), err), this\<lparr>file' := f1\<rparr>)
           else ((t, None), this\<lparr>file' := f1, offset := ucast t\<rparr>)))"

text \<open>
  \<open>Skip\<close>: \<open>pos := base + size\<close> in \<open>uint32\<close>, one more when \<open>pos&1 == 1\<close>; the
  result of the source's \<open>Seek\<close> is not looked at.
\<close>

definition Skip_pos :: "'s Chunk \<Rightarrow> uint32" where
  "Skip_pos this =
     (let pos = base this + size' this in if pos AND 1 = 1 then pos + 1 else pos)"

definition Skip :: "'s ReadSeeker \<Rightarrow> 's Chunk \<Rightarrow> 's Chunk" where
  "Skip rs this =
     (let pos = Skip_pos this;
          this1 = this\<lparr>offset := size' this\<rparr>
      in this1\<lparr>file' := snd (Seek_src rs (file' this1) (ucast pos) 0)\<rparr>)"

text \<open>
  \<open>Read\<close> with a buffer of \<open>len(buffer) = n\<close>. \<open>Read_len\<close> is the length of the
  buffer handed to the source: \<open>size := uint32(len(buffer))\<close>, and the buffer is cut
  to \<open>this.size - this.offset\<close> (a \<open>uint32\<close> difference) when \<open>size\<close> exceeds it.
  The result is the source's \<open>(n, err)\<close>, with the bytes read standing for \<open>n\<close>.
\<close>

definition Read_len :: "'s Chunk \<Rightarrow> nat \<Rightarrow> nat" where
  "Read_len this n =
     (if (of_nat n :: uint32) > size' this - offset this
      then unat (size' this - offset this) else n)"

definition Read :: "'s ReadSeeker \<Rightarrow> 's Chunk \<Rightarrow> nat \<Rightarrow> (byte list \<times> error option) \<times> 's Chunk" where
  "Read rs this n =
     (if offset this = size' this then (([], Some EOF), this)
      else
        (case Read_src rs (file' this) (Read_len this n) of ((bs, err), f1) \<Rightarrow>
           let this1 = this\<lparr>file' := f1, offset := offset this + of_nat (length bs)\<rparr> in
           if offset this1 = size' this1 \<and> size' this1 AND 1 = 1
           then
             (case Seek_src rs (file' this1) 1 1 of ((_, err1), f2) \<Rightarrow>
                if err1 = None
                then ((bs, err), this1\<lparr>file' := f2, offset := offset this1 + 1\<rparr>)
                else ((bs, err), this1\<lparr>file' := f2\<rparr>))
           else ((bs, err), this1)))"

definition IsTTY :: "'s Chunk \<Rightarrow> bool" where
  "IsTTY this = False"

text \<open>
  A chunk is itself an \<open>io.ReadSeeker\<close> (\<open>New\<close> accepts one, for chunks inside
  chunks): its method table over the chunk's own state.
\<close>

definition Chunk_ReadSeeker :: "'s ReadSeeker \<Rightarrow> 's Chunk ReadSeeker" where
  "Chunk_ReadSeeker rs = \<lparr>Read_src = Read rs, Seek_src = Seek rs\<rparr>"

subsection \<open>The source of the tests: \<open>bytes.Reader\<close>\<close>

text \<open>
  The tests build every chunk on \<open>bytes.NewReader(data)\<close> of Go's standard library:
  a byte slice \<open>s\<close> and a read index \<open>i\<close> (the fields \<open>r_s\<close> and \<open>r_i\<close>).
  \<^item> \<open>Read(b)\<close>: \<open>io.EOF\<close> with no bytes when \<open>i >= len(s)\<close>; otherwise it copies
    \<open>min(len(b), len(s) - i)\<close> bytes, advances \<open>i\<close> and returns no error.
  \<^item> \<open>Seek(offset, whence)\<close>: the new index is \<open>offset\<close>, \<open>i + offset\<close> or
    \<open>len(s) + offset\<close> for whence 0, 1, 2; another whence and a negative index are
    errors that leave \<open>i\<close> alone and return 0.
  The sums of \<open>Seek\<close> are taken over the integers, where Go adds \<open>int64\<close> values: the
  two differ only where a sum leaves the range of \<open>int64\<close>. The chunk calls
  \<open>Seek(0, 1)\<close>, \<open>Seek(1, 1)\<close> and absolute seeks to positions below \<open>2 ^ 33\<close> only.
\<close>

record bytes_Reader =
  r_s :: "byte list"
  r_i :: nat

definition bytes_Read :: "bytes_Reader \<Rightarrow> nat \<Rightarrow> (byte list \<times> error option) \<times> bytes_Reader" where
  "bytes_Read r k =
     (if r_i r \<ge> length (r_s r) then (([], Some EOF), r)
      else (let bs = take k (drop (r_i r) (r_s r)) in ((bs, None), r\<lparr>r_i := r_i r + length bs\<rparr>)))"

definition bytes_Seek :: "bytes_Reader \<Rightarrow> int64 \<Rightarrow> int \<Rightarrow> (int64 \<times> error option) \<times> bytes_Reader" where
  "bytes_Seek r off whence =
     (if whence \<noteq> 0 \<and> whence \<noteq> 1 \<and> whence \<noteq> 2
      then ((0, Some (ErrorString ''bytes.Reader.Seek: invalid whence'')), r)
      else
        (let abs = (if whence = 0 then sint off
                    else if whence = 1 then int (r_i r) + sint off
                    else int (length (r_s r)) + sint off)
         in if abs < 0
            then ((0, Some (ErrorString ''bytes.Reader.Seek: negative position'')), r)
            else ((of_int abs, None), r\<lparr>r_i := nat abs\<rparr>)))"

definition bytes_ReadSeeker :: "bytes_Reader ReadSeeker" where
  "bytes_ReadSeeker = \<lparr>Read_src = bytes_Read, Seek_src = bytes_Seek\<rparr>"

definition NewReader :: "byte list \<Rightarrow> bytes_Reader" where
  "NewReader b = \<lparr>r_s = b, r_i = 0\<rparr>"

subsection \<open>The specification's notions\<close>

text \<open>
  The seek target as the specification words it, over the integers: \<open>offset\<close> from the
  start, \<open>cursor + offset\<close> from the current position (whence 1) and
  \<open>declaredSize + offset\<close> from the end (whence 2). It is compared below with
  \<open>Seek_target\<close>, the \<open>int64\<close> value the code computes.
\<close>

definition Seek_target_spec :: "'s Chunk \<Rightarrow> int64 \<Rightarrow> int \<Rightarrow> int" where
  "Seek_target_spec this off whence =
     (if whence = 1 then uint (offset this) + sint off
      else if whence = 2 then uint (size' this) + sint off
      else sint off)"

text \<open>The big-endian unsigned 32-bit value of four bytes, as a number.\<close>

definition be32 :: "byte list \<Rightarrow> nat" where
  "be32 bs = unat (bs ! 0) * 2 ^ 24 + unat (bs ! 1) * 2 ^ 16 + unat (bs ! 2) * 2 ^ 8 + unat (bs ! 3)"

subsection \<open>The data of the tests\<close>

text \<open>
  \<open>testString\<close> of \<open>chunk_test.go\<close>: the chunk \<open>TEST\<close> (size 2), then \<open>FOO \<close>
  (size 20) holding \<open>IN1 \<close> (size 1, one pad byte) and \<open>IN2 \<close> (size 2).
\<close>

definition testString :: "byte list" where
  "testString =
     [84, 69, 83, 84, 0, 0, 0, 2, 42, 24,
      70, 79, 79, 32, 0, 0, 0, 20,
      73, 78, 49, 32, 0, 0, 0, 1, 255, 0,
      73, 78, 50, 32, 0, 0, 0, 2, 127, 129]"

text \<open>The chunks \<open>New\<close> makes on a reader of \<open>testString\<close> at the indices 0, 10 and 18.\<close>

definition chunkTest :: "bytes_Reader Chunk" where
  "chunkTest = \<lparr>file' = \<lparr>r_s = testString, r_i = 8\<rparr>, id' = [84, 69, 83, 84],
                 size' = 2, base = 8, offset = 0\<rparr>"

definition chunkFoo :: "bytes_Reader Chunk" where
  "chunkFoo = \<lparr>file' = \<lparr>r_s = testString, r_i = 18\<rparr>, id' = [70, 79, 79, 32],
                size' = 20, base = 18, offset = 0\<rparr>"

definition chunkIN1 :: "bytes_Reader Chunk" where
  "chunkIN1 = \<lparr>file' = \<lparr>r_s = testString, r_i = 26\<rparr>, id' = [73, 78, 49, 32],
                size' = 1, base = 26, offset = 0\<rparr>"

text \<open>\<open>chunkIN1\<close> after one \<open>Read\<close> has taken its only payload byte.\<close>

definition chunkIN1_drained :: "bytes_Reader Chunk" where
  "chunkIN1_drained = \<lparr>file' = \<lparr>r_s = testString, r_i = 28\<rparr>, id' = [73, 78, 49, 32],
                        size' = 1, base = 26, offset = 2\<rparr>"

text \<open>
  \<open>chunkIN1\<close> as the tests make it, inside \<open>chunkFoo\<close>: its source is the chunk
  \<open>FOO \<close>, whose cursor stands behind the header of \<open>IN1 \<close>.
\<close>

definition chunkIN1_nested :: "bytes_Reader Chunk Chunk" where
  "chunkIN1_nested =
     \<lparr>file' = \<lparr>file' = \<lparr>r_s = testString, r_i = 26\<rparr>, id' = [70, 79, 79, 32],
                 size' = 20, base = 18, offset = 8\<rparr>,
      id' = [73, 78, 49, 32], size' = 1, base = 8, offset = 0\<rparr>"

text \<open>The same data behind one leading byte, read from index 1: the chunk's base is odd.\<close>

definition oddReader :: bytes_Reader where
  "oddReader = \<lparr>r_s = 0 # testString, r_i = 1\<rparr>"

definition chunkOdd :: "bytes_Reader Chunk" where
  "chunkOdd = \<lparr>file' = \<lparr>r_s = 0 # testString, r_i = 9\<rparr>, id' = [84, 69, 83, 84],
                size' = 2, base = 9, offset = 0\<rparr>"

text \<open>The same data behind 4 GiB of zero bytes, read from index \<open>2 ^ 32\<close>.\<close>

definition bigReader :: bytes_Reader where
  "bigReader = \<lparr>r_s = replicate 4294967296 0 @ testString, r_i = 4294967296\<rparr>"

definition chunkBig :: "bytes_Reader Chunk" where
  "chunkBig = \<lparr>file' = \<lparr>r_s = replicate 4294967296 0 @ testString, r_i = 4294967304\<rparr>,
                id' = [84, 69, 83, 84], size' = 2, base = 8, offset = 0\<rparr>"

text \<open>
  A chunk \<open>FOO \<close> of size 12 whose payload is the header of a chunk \<open>IN1 \<close> that
  declares 100 bytes, and 4 bytes. \<open>chunkShort\<close> is \<open>FOO \<close> behind that inner header,
  \<open>chunkLong\<close> the chunk \<open>IN1 \<close> made on it.
\<close>

definition shortString :: "byte list" where
  "shortString = [70, 79, 79, 32, 0, 0, 0, 12, 73, 78, 49, 32, 0, 0, 0, 100, 1, 2, 3, 4]"

definition chunkShort :: "bytes_Reader Chunk" where
  "chunkShort = \<lparr>file' = \<lparr>r_s = shortString, r_i = 16\<rparr>, id' = [70, 79, 79, 32],
                  size' = 12, base = 8, offset = 8\<rparr>"

definition chunkLong :: "bytes_Reader Chunk Chunk" where
  "chunkLong = \<lparr>file' = chunkShort, id' = [73, 78, 49, 32], size' = 100, base = 8, offset = 0\<rparr>"

section \<open>Word arithmetic of the chunk\<close>

lemmas run_defs = New_def Read_def Read_len_def Seek_def Seek_target_def Skip_def Skip_pos_def
  sizeOf_def bytes_ReadSeeker_def bytes_Read_def bytes_Seek_def NewReader_def
  Chunk_ReadSeeker_def Let_def word_sless_alt

lemma uint32_bounds: "0 \<le> uint (x :: uint32) \<and> uint x < 2 ^ 32"
  using uint_lt2p [of x] by simp

lemma sint64_bounds: "- (2 ^ 63) \<le> sint (x :: int64) \<and> sint x < 2 ^ 63"
  using sint_ge [of x] sint_lt [of x] by simp

lemma byte_bound: "unat (b :: byte) < 256"
  using unsigned_less [of b, where 'a = nat] by simp

text \<open>\<open>x & 1 == 1\<close> on a \<open>uint32\<close> says that \<open>x\<close> is odd.\<close>

lemma and_one_odd: "(w AND 1 = 1) = odd (unat (w :: uint32))"
proof -
  have "(w AND 1 = 1) = (unat (w mod 2) = unat (1 :: uint32))"
    by (simp only: and_one_eq word_unat_eq_iff)
  also have "unat (w mod 2) = unat w mod 2"
    by (simp add: unat_mod_distrib)
  finally show ?thesis by (simp add: odd_iff_mod_2_eq_one)
qed

text \<open>\<open>int64(x)\<close> of a \<open>uint32\<close> keeps the value, also read as a signed number.\<close>

lemma uint_ucast32: "uint (ucast (x :: uint32) :: int64) = uint x"
  by (simp add: uint_up_ucast is_up)

lemma sint_ucast32: "sint (ucast (x :: uint32) :: int64) = uint x"
proof -
  have "uint x < 2 ^ 63" using uint32_bounds [of x] by simp
  moreover have "- (2 ^ 63) \<le> uint x" by (rule order_trans [of _ 0]) simp_all
  ultimately have "signed_take_bit (63::nat) (uint x) = uint x"
    by (intro signed_take_bit_int_eq_self)
  then show ?thesis
    by (simp add: sint_uint uint_ucast32)
qed

lemma of_int_sint64: "(word_of_int (sint (w :: int64)) :: int64) = w"
  by simp

text \<open>\<open>uint32(p)\<close> of an \<open>int64\<close> that lies in the range of \<open>uint32\<close> keeps the value.\<close>

lemma ucast_pos32:
  assumes "0 \<le> sint (pos :: int64)" "sint pos < 2 ^ 32"
  shows "uint (ucast pos :: uint32) = sint pos"
proof -
  have a: "take_bit (64::nat) (sint pos) = sint pos"
    using assms by (intro take_bit_int_eq_self) simp_all
  have b: "take_bit (32::nat) (sint pos) = sint pos"
    using assms by (intro take_bit_int_eq_self) simp_all
  have "uint pos = sint pos"
    using a by (simp add: uint_sint)
  then show ?thesis
    using b by (simp add: unsigned_ucast_eq)
qed

lemma ucast_of_nat_64_32: "(ucast (word_of_nat n :: int64) :: uint32) = word_of_nat n"
proof -
  have "(ucast (word_of_int (int n) :: int64) :: uint32) = word_of_int (int n)"
    by (rule ucast_down_wi) (simp add: is_down)
  then show ?thesis by (simp only: of_int_of_nat_eq)
qed

text \<open>An \<open>int64\<close> sum of an offset and a \<open>uint32\<close> wraps at most once, and only upwards.\<close>

lemma signed_take_bit_63:
  assumes "- (2 ^ 63) \<le> (k::int)" "k < 2 ^ 63 + 2 ^ 32"
  shows "signed_take_bit (63::nat) k = (if k < 2 ^ 63 then k else k - 2 ^ 64)"
proof -
  have e: "signed_take_bit (63::nat) k = (k + 2 ^ 63) mod 2 ^ 64 - 2 ^ 63"
    by (simp add: signed_take_bit_eq_take_bit_shift take_bit_eq_mod)
  show ?thesis
  proof (cases "k < 2 ^ 63")
    case True
    with assms have "(k + 2 ^ 63) mod 2 ^ 64 = k + 2 ^ 63"
      by (intro mod_pos_pos_trivial) auto
    with True e show ?thesis by simp
  next
    case False
    with assms have "(k + 2 ^ 63 - 2 ^ 64) mod 2 ^ 64 = k + 2 ^ 63 - 2 ^ 64"
      by (intro mod_pos_pos_trivial) auto
    moreover have "(k + 2 ^ 63 - 2 ^ 64) mod 2 ^ 64 = (k + 2 ^ 63) mod (2 ^ 64 :: int)"
      by (metis mod_diff_right_eq mod_self diff_zero)
    ultimately show ?thesis using False e by simp
  qed
qed

lemma sint_add_ucast32:
  "sint (off + (ucast (x :: uint32) :: int64)) =
     (if sint off + uint x < 2 ^ 63 then sint off + uint x else sint off + uint x - 2 ^ 64)"
proof -
  have "- (2 ^ 63) \<le> sint off + uint x" "sint off + uint x < 2 ^ 63 + 2 ^ 32"
    using sint64_bounds [of off] uint32_bounds [of x] by linarith+
  then have "signed_take_bit (63::nat) (sint off + uint x) =
      (if sint off + uint x < 2 ^ 63 then sint off + uint x else sint off + uint x - 2 ^ 64)"
    by (rule signed_take_bit_63)
  moreover have "sint (off + (ucast x :: int64)) = signed_take_bit (63::nat) (sint off + uint x)"
    by (simp add: sint_word_add sint_ucast32)
  ultimately show ?thesis by (simp only:)
qed

lemma add_ucast32_of_int: "off + ucast (x :: uint32) = (word_of_int (uint x + sint off) :: int64)"
proof -
  have "(word_of_int (uint x + sint off) :: int64) = word_of_int (uint x) + word_of_int (sint off)"
    by (rule of_int_add)
  also have "\<dots> = ucast x + off"
    by (simp only: of_int_sint64 ucast_eq [symmetric])
  finally show ?thesis by (simp only: add.commute)
qed

section \<open>The seek target\<close>

text \<open>
  The \<open>int64\<close> target of the code is the specification's integer target, except where
  the sum passes \<open>2 ^ 63\<close>; there the code's target is negative.
\<close>

lemma sint_Seek_target:
  "sint (Seek_target this off whence) =
     (if Seek_target_spec this off whence < 2 ^ 63 then Seek_target_spec this off whence
      else Seek_target_spec this off whence - 2 ^ 64)"
  using sint64_bounds [of off]
  by (auto simp add: Seek_target_def Seek_target_spec_def sint_add_ucast32 add.commute)

lemma Seek_target_spec_bounds:
  "- (2 ^ 63) \<le> Seek_target_spec this off whence \<and>
   Seek_target_spec this off whence < 2 ^ 63 + 2 ^ 32"
proof -
  have k: "- (2 ^ 63) \<le> k + sint off \<and> k + sint off < 2 ^ 63 + 2 ^ 32"
    if "0 \<le> k \<and> k < 2 ^ 32" for k :: int
    using that sint64_bounds [of off] by simp
  have z: "- (2 ^ 63) \<le> sint off \<and> sint off < 2 ^ 63 + 2 ^ 32"
    using sint64_bounds [of off] by simp
  show ?thesis
    using k [OF uint32_bounds [of "offset this"]] k [OF uint32_bounds [of "size' this"]] z
    by (simp only: Seek_target_spec_def split: if_split) blast
qed

text \<open>The check \<open>offset < 0 || offset > int64(this.size)\<close> decides the integer bounds.\<close>

lemma Seek_invalid_iff:
  "(Seek_target this off whence <s 0 \<or> ucast (size' this) <s Seek_target this off whence) =
   (Seek_target_spec this off whence < 0 \<or> uint (size' this) < Seek_target_spec this off whence)"
  using Seek_target_spec_bounds [of this off whence] uint32_bounds [of "size' this"]
  by (auto simp add: word_sless_alt sint_Seek_target sint_ucast32 split: if_splits)

lemma Seek_target_of_int:
  "Seek_target this off whence = word_of_int (Seek_target_spec this off whence)"
  by (simp only: Seek_target_def Seek_target_spec_def add_ucast32_of_int of_int_sint64
        if_distrib [of word_of_int])

lemma Seek_src_arg:
  "ucast (base this) + Seek_target this off whence =
     (word_of_int (uint (base this) + Seek_target_spec this off whence) :: int64)"
proof -
  have "(word_of_int (uint (base this) + Seek_target_spec this off whence) :: int64) =
      word_of_int (uint (base this)) + word_of_int (Seek_target_spec this off whence)"
    by (rule of_int_add)
  then show ?thesis
    by (simp only: Seek_target_of_int ucast_eq [symmetric])
qed

lemma ucast_Seek_target:
  "(ucast (Seek_target this off whence) :: uint32) = word_of_int (Seek_target_spec this off whence)"
  by (simp add: Seek_target_of_int ucast_down_wi is_down)

text \<open>A target within the chunk is its own \<open>uint32\<close> and \<open>int64\<close> value.\<close>

lemma Seek_target_spec_repr:
  assumes "0 \<le> Seek_target_spec this off whence"
    and "Seek_target_spec this off whence \<le> uint (size' this)"
  shows "uint (word_of_int (Seek_target_spec this off whence) :: uint32) =
           Seek_target_spec this off whence"
    and "sint (word_of_int (Seek_target_spec this off whence) :: int64) =
           Seek_target_spec this off whence"
proof -
  let ?t = "Seek_target_spec this off whence"
  have lt: "?t < 2 ^ 32" using assms(2) uint32_bounds [of "size' this"] by linarith
  then show "uint (word_of_int ?t :: uint32) = ?t"
    using assms(1) by (simp add: uint_word_of_int)
  have "?t < 2 ^ 63" using lt by simp
  then show "sint (word_of_int ?t :: int64) = ?t"
    using sint_Seek_target [of this off whence] by (simp add: Seek_target_of_int)
qed

text \<open>The two outcomes of \<open>Seek\<close> for a target within the chunk.\<close>

lemma Seek_in_range:
  assumes "0 \<le> Seek_target_spec this off whence"
    and "Seek_target_spec this off whence \<le> uint (size' this)"
    and "Seek_src rs (file' this)
           (word_of_int (uint (base this) + Seek_target_spec this off whence)) 0 = ((pos, err), f1)"
  shows "Seek rs this off whence =
           (if err = None
            then ((word_of_int (Seek_target_spec this off whence), None),
                  this\<lparr>file' := f1, offset := word_of_int (Seek_target_spec this off whence)\<rparr>)
            else ((pos - ucast (base this), err), this\<lparr>file' := f1\<rparr>))"
proof -
  have "\<not> (Seek_target this off whence <s 0 \<or> ucast (size' this) <s Seek_target this off whence)"
    using assms(1,2) by (simp add: Seek_invalid_iff)
  then show ?thesis
    using assms(3)
    by (simp add: Seek_def Let_def Seek_src_arg ucast_Seek_target)
       (simp add: Seek_target_of_int)
qed

lemma Seek_out_of_range:
  assumes "Seek_target_spec this off whence < 0 \<or>
           uint (size' this) < Seek_target_spec this off whence"
  shows "Seek rs this off whence =
           ((ucast (offset this), Some (ErrorString ''Invalid seek offset'')), this)"
  using assms by (simp add: Seek_def Let_def Seek_invalid_iff)

section \<open>The header\<close>

text \<open>The shifts and ORs of \<open>sizeOf\<close> touch disjoint bits, so they add up.\<close>

lemma be32_bound: "be32 bs < 2 ^ 32"
  using byte_bound [of "bs ! 0"] byte_bound [of "bs ! 1"] byte_bound [of "bs ! 2"]
    byte_bound [of "bs ! 3"]
  by (simp add: be32_def)

lemma bit_ucast_byte: "bit (ucast (b :: byte) :: uint32) n \<Longrightarrow> n < 8"
  by (auto simp add: bit_ucast_iff dest: bit_imp_le_length)

lemma sizeOf_plus:
  "sizeOf bs = push_bit 24 (ucast (bs ! 0)) + (push_bit 16 (ucast (bs ! 1))
       + (push_bit 8 (ucast (bs ! 2)) + ucast (bs ! 3)))"
proof -
  let ?a = "ucast (bs ! 0) :: uint32" and ?b = "ucast (bs ! 1) :: uint32"
  and ?c = "ucast (bs ! 2) :: uint32" and ?d = "ucast (bs ! 3) :: uint32"
  have 1: "push_bit 8 ?c + ?d = push_bit 8 ?c OR ?d"
    by (rule disjunctive_add) (auto simp add: bit_push_bit_iff dest!: bit_ucast_byte)
  have 2: "push_bit 16 ?b + (push_bit 8 ?c OR ?d) = push_bit 16 ?b OR (push_bit 8 ?c OR ?d)"
    by (rule disjunctive_add) (auto simp add: bit_push_bit_iff bit_or_iff dest!: bit_ucast_byte)
  have 3: "push_bit 24 ?a + (push_bit 16 ?b OR (push_bit 8 ?c OR ?d))
         = push_bit 24 ?a OR (push_bit 16 ?b OR (push_bit 8 ?c OR ?d))"
    by (rule disjunctive_add) (auto simp add: bit_push_bit_iff bit_or_iff dest!: bit_ucast_byte)
  show ?thesis
    by (simp only: sizeOf_def 1 2 3)
qed

lemma sizeOf_of_nat: "sizeOf bs = word_of_nat (be32 bs)"
  by (simp add: sizeOf_plus be32_def push_bit_eq_mult)

lemma unat_sizeOf: "unat (sizeOf bs) = be32 bs"
  using be32_bound [of bs] by (simp add: sizeOf_of_nat unat_of_nat)

text \<open>\<open>New\<close> when both header reads fill their four bytes and report no error.\<close>

lemma New_full_header:
  assumes "Read_src rs f 4 = ((ident, None), f1)" "length ident = 4"
    and "Read_src rs f1 4 = ((sizeBits, None), f2)" "length sizeBits = 4"
    and "Seek_src rs f2 0 1 = ((pos, e), f3)"
  shows "New rs f = ((Some \<lparr>file' = f3, id' = ident, size' = sizeOf sizeBits,
                          base = ucast pos, offset = 0\<rparr>, None), f3)"
  using assms by (simp add: New_def)

lemma New_offset: "New rs f = ((Some c, e), f') \<Longrightarrow> offset c = 0"
  by (auto simp add: New_def split: prod.splits if_splits)

text \<open>On a \<open>bytes.Reader\<close> with eight bytes left.\<close>

lemma bytes_Read_full:
  "r_i r + k \<le> length (r_s r) \<Longrightarrow> 0 < k \<Longrightarrow>
   bytes_Read r k = ((take k (drop (r_i r) (r_s r)), None), r\<lparr>r_i := r_i r + k\<rparr>)"
  by (simp add: bytes_Read_def Let_def min_def)

lemma bytes_Seek_here: "bytes_Seek r 0 1 = ((word_of_nat (r_i r), None), r)"
  by (simp add: bytes_Seek_def)

lemma New_bytes_Reader:
  assumes "r_i r + 8 \<le> length (r_s r)"
  shows "New bytes_ReadSeeker r =
     ((Some \<lparr>file' = r\<lparr>r_i := r_i r + 8\<rparr>, id' = take 4 (drop (r_i r) (r_s r)),
             size' = sizeOf (take 4 (drop (r_i r + 4) (r_s r))),
             base = word_of_nat (r_i r + 8), offset = 0\<rparr>, None), r\<lparr>r_i := r_i r + 8\<rparr>)"
proof -
  have 1: "Read_src bytes_ReadSeeker r 4 =
      ((take 4 (drop (r_i r) (r_s r)), None), r\<lparr>r_i := r_i r + 4\<rparr>)"
    using assms by (simp add: bytes_ReadSeeker_def bytes_Read_full)
  have 2: "Read_src bytes_ReadSeeker (r\<lparr>r_i := r_i r + 4\<rparr>) 4 =
      ((take 4 (drop (r_i r + 4) (r_s r)), None), r\<lparr>r_i := r_i r + 8\<rparr>)"
    using assms by (simp add: bytes_ReadSeeker_def bytes_Read_full)
  have 3: "Seek_src bytes_ReadSeeker (r\<lparr>r_i := r_i r + 8\<rparr>) 0 1 =
      ((word_of_nat (r_i r + 8), None), r\<lparr>r_i := r_i r + 8\<rparr>)"
    by (simp add: bytes_ReadSeeker_def bytes_Seek_here)
  have l1: "length (take 4 (drop (r_i r) (r_s r))) = 4" using assms by simp
  have l2: "length (take 4 (drop (r_i r + 4) (r_s r))) = 4" using assms by simp
  show ?thesis
    using New_full_header [OF 1 l1 2 l2 3] by (simp only: ucast_of_nat_64_32)
qed

section \<open>Skipping and reading\<close>

lemma Skip_eq:
  "Skip rs this = this\<lparr>offset := size' this,
                         file' := snd (Seek_src rs (file' this) (ucast (Skip_pos this)) 0)\<rparr>"
  by (simp add: Skip_def Let_def)

text \<open>The position \<open>Skip\<close> asks for, with the wrap-around of \<open>uint32\<close> written out.\<close>

lemma unat_Skip_pos:
  "unat (Skip_pos this) =
     (if odd (unat (base this) + unat (size' this))
      then ((unat (base this) + unat (size' this)) mod 2 ^ 32 + 1) mod 2 ^ 32
      else (unat (base this) + unat (size' this)) mod 2 ^ 32)"
proof -
  have "(k mod 2 ^ 32) mod 2 = k mod 2" for k :: nat
    by (rule mod_mod_cancel) simp
  then have "odd (k mod 2 ^ 32) = odd k" for k :: nat
    by (simp only: odd_iff_mod_2_eq_one)
  then have p: "odd (unat (base this + size' this)) = odd (unat (base this) + unat (size' this))"
    by (simp add: unat_word_ariths(1))
  show ?thesis
    by (simp add: Skip_pos_def Let_def and_one_odd p) (simp add: unat_word_ariths(1))
qed

lemma unat_Skip_pos_no_overflow:
  assumes "unat (base this) + unat (size' this) + 1 < 2 ^ 32"
  shows "unat (Skip_pos this) = 2 * ((unat (base this) + unat (size' this) + 1) div 2)"
proof -
  have "(unat (base this) + unat (size' this)) mod 2 ^ 32 = unat (base this) + unat (size' this)"
    using assms by simp
  moreover have "(unat (base this) + unat (size' this) + 1) mod 2 ^ 32 =
      unat (base this) + unat (size' this) + 1"
    using assms by simp
  ultimately show ?thesis
    by (simp add: unat_Skip_pos)
qed

lemma Read_exhausted: "offset this = size' this \<Longrightarrow> Read rs this n = (([], Some EOF), this)"
  by (simp add: Read_def)

text \<open>
  With the cursor inside the chunk and a buffer shorter than \<open>2 ^ 32\<close>, the source is
  asked for the smaller of the buffer's length and the rest of the payload.
\<close>

lemma Read_len_min:
  assumes "offset this \<le> size' this" "n < 2 ^ 32"
  shows "Read_len this n = min n (unat (size' this) - unat (offset this))"
proof -
  have "unat (size' this - offset this) = unat (size' this) - unat (offset this)"
    using assms(1) by (rule unat_sub)
  moreover have "unat (word_of_nat n :: uint32) = n"
    using assms(2) by (simp add: unat_of_nat)
  ultimately show ?thesis
    by (auto simp add: Read_len_def word_less_nat_alt)
qed

lemma Read_advance:
  assumes le: "offset this \<le> size' this" and n: "n < 2 ^ 32"
    and conf: "length bs \<le> Read_len this n"
  shows "unat (offset this) + length bs \<le> unat (size' this)"
    and "unat (offset this + word_of_nat (length bs)) = unat (offset this) + length bs"
proof -
  have o: "unat (offset this) \<le> unat (size' this)"
    using le by (simp add: word_le_nat_alt)
  have "length bs \<le> unat (size' this) - unat (offset this)"
    using conf by (simp add: Read_len_min [OF le n])
  with o show b: "unat (offset this) + length bs \<le> unat (size' this)"
    by simp
  have s: "unat (size' this) < 2 ^ 32"
    using unsigned_less [of "size' this", where 'a = nat] by simp
  from b s have l: "length bs < 2 ^ 32" by simp
  then have u: "unat (word_of_nat (length bs) :: uint32) = length bs"
    by (simp add: unat_of_nat)
  have "unat (offset this) + unat (word_of_nat (length bs) :: uint32) < 2 ^ LENGTH(32)"
    using b s u by simp
  then have "unat (offset this + word_of_nat (length bs)) =
      unat (offset this) + unat (word_of_nat (length bs) :: uint32)"
    by (simp only: unat_add_lem)
  with u show "unat (offset this + word_of_nat (length bs)) = unat (offset this) + length bs"
    by simp
qed

text \<open>
  One \<open>Read\<close> of a chunk that is not exhausted: the pad-byte branch is taken when the
  read reaches the end of an odd-sized payload, and it adds one to the cursor when the
  source's \<open>Seek(1, 1)\<close> reports no error.
\<close>

lemma Read_step:
  assumes le: "offset this \<le> size' this" and ne: "offset this \<noteq> size' this"
    and n: "n < 2 ^ 32"
    and src: "Read_src rs (file' this) (Read_len this n) = ((bs, err), f1)"
    and conf: "length bs \<le> Read_len this n"
  shows "Read rs this n =
      (if unat (offset this) + length bs = unat (size' this) \<and> odd (unat (size' this))
       then (if snd (fst (Seek_src rs f1 1 1)) = None
             then ((bs, err), this\<lparr>file' := snd (Seek_src rs f1 1 1), offset := size' this + 1\<rparr>)
             else ((bs, err), this\<lparr>file' := snd (Seek_src rs f1 1 1), offset := size' this\<rparr>))
       else ((bs, err), this\<lparr>file' := f1, offset := offset this + word_of_nat (length bs)\<rparr>))"
proof -
  have e: "(offset this + word_of_nat (length bs) = size' this) =
           (unat (offset this) + length bs = unat (size' this))"
    by (simp add: word_unat_eq_iff Read_advance(2) [OF le n conf])
  show ?thesis
    using ne src
    by (auto simp add: Read_def Let_def and_one_odd e split: prod.splits)
qed

section \<open>The chunks of the test data\<close>

text \<open>
  The chunks defined above are the ones \<open>New\<close> returns: \<open>TEST\<close> on a fresh reader,
  \<open>FOO \<close> behind the skipped \<open>TEST\<close>, \<open>IN1 \<close> behind the header of \<open>FOO \<close>, and
  the outer chunk of \<open>shortString\<close>.
\<close>

lemma New_test_chunks:
  "New bytes_ReadSeeker (NewReader testString) = ((Some chunkTest, None), file' chunkTest)"
  "New bytes_ReadSeeker (file' (Skip bytes_ReadSeeker chunkTest)) = ((Some chunkFoo, None), file' chunkFoo)"
  "New bytes_ReadSeeker (file' chunkFoo) = ((Some chunkIN1, None), file' chunkIN1)"
  "New bytes_ReadSeeker (NewReader shortString) =
     ((Some (chunkShort\<lparr>file' := \<lparr>r_s = shortString, r_i = 8\<rparr>, offset := 0\<rparr>), None),
      \<lparr>r_s = shortString, r_i = 8\<rparr>)"
  by (simp_all add: run_defs testString_def shortString_def chunkTest_def chunkFoo_def
        chunkIN1_def chunkShort_def)

section \<open>The cursor and bounded reads\<close>

text \<open>
  Claim C1 says that the cursor stays within \<open>[0, declaredSize]\<close> across every
  sequence of operations and that the pad-byte handling of \<open>Read\<close> never increments
  it past \<open>declaredSize\<close>. The code increments it there: \<open>this.offset++\<close> after a
  successful \<open>Seek(1, 1)\<close>. On the test data, reading the one byte of \<open>IN1 \<close> (as
  \<open>TestReadPadding\<close> does, inside \<open>FOO \<close>) leaves the cursor at 2 with
  \<open>declaredSize\<close> 1.
\<close>

theorem cursor_past_size_after_pad:
  "New (Chunk_ReadSeeker bytes_ReadSeeker) chunkFoo = ((Some chunkIN1_nested, None), file' chunkIN1_nested)
   \<and> size' (snd (Read (Chunk_ReadSeeker bytes_ReadSeeker) chunkIN1_nested 1)) = 1
   \<and> offset (snd (Read (Chunk_ReadSeeker bytes_ReadSeeker) chunkIN1_nested 1)) = 2
   \<and> \<not> offset (snd (Read (Chunk_ReadSeeker bytes_ReadSeeker) chunkIN1_nested 1))
        \<le> size' (snd (Read (Chunk_ReadSeeker bytes_ReadSeeker) chunkIN1_nested 1))"
  by (simp add: run_defs testString_def chunkFoo_def chunkIN1_nested_def word_le_nat_alt)

text \<open>
  Claim C1, amended. After construction the cursor is 0. From every state with the
  cursor within \<open>[0, declaredSize]\<close>, \<open>Seek\<close> and \<open>Skip\<close> leave it there, and so does
  a \<open>Read\<close> with a buffer shorter than \<open>2 ^ 32\<close> on a source that returns no more
  bytes than it was asked for, except in one case: when the read drains an odd-sized
  chunk and the source's pad-byte seek \<open>Seek(1, 1)\<close> reports no error, the pad-byte
  handling increments the cursor to \<open>declaredSize + 1\<close>.
\<close>

theorem cursor_bounds:
  "(New rs f = ((Some c, e), f') \<longrightarrow> offset c = 0 \<and> offset c \<le> size' c)
   \<and> (offset this \<le> size' this \<longrightarrow>
        offset (snd (Seek rs this off whence)) \<le> size' (snd (Seek rs this off whence)))
   \<and> offset (Skip rs this) \<le> size' (Skip rs this)
   \<and> (offset this \<le> size' this \<and> n < 2 ^ 32
        \<and> Read_src rs (file' this) (Read_len this n) = ((bs, err), f1)
        \<and> length bs \<le> Read_len this n \<longrightarrow>
        size' (snd (Read rs this n)) = size' this
        \<and> (if offset this \<noteq> size' this
               \<and> unat (offset this) + length bs = unat (size' this)
               \<and> odd (unat (size' this))
               \<and> snd (fst (Seek_src rs f1 1 1)) = None
            then offset (snd (Read rs this n)) = size' this + 1
            else offset (snd (Read rs this n)) \<le> size' this))"
proof -
  have new: "offset c = 0 \<and> offset c \<le> size' c" if "New rs f = ((Some c, e), f')"
    using New_offset [OF that] by simp
  have seek: "offset (snd (Seek rs this off whence)) \<le> size' (snd (Seek rs this off whence))"
    if le: "offset this \<le> size' this"
  proof (cases "Seek_target_spec this off whence < 0 \<or>
                uint (size' this) < Seek_target_spec this off whence")
    case True
    then show ?thesis using le by (simp add: Seek_out_of_range)
  next
    case False
    then have r: "0 \<le> Seek_target_spec this off whence"
      "Seek_target_spec this off whence \<le> uint (size' this)" by simp_all
    obtain pos err1 f2 where s: "Seek_src rs (file' this)
        (word_of_int (uint (base this) + Seek_target_spec this off whence)) 0 = ((pos, err1), f2)"
      by (metis prod.exhaust)
    have "(word_of_int (Seek_target_spec this off whence) :: uint32) \<le> size' this"
      using r by (simp add: word_le_def Seek_target_spec_repr(1) [OF r])
    then show ?thesis
      using le by (simp add: Seek_in_range [OF r s])
  qed
  have skip: "offset (Skip rs this) \<le> size' (Skip rs this)"
    by (simp add: Skip_eq)
  have read: "size' (snd (Read rs this n)) = size' this
        \<and> (if offset this \<noteq> size' this
               \<and> unat (offset this) + length bs = unat (size' this)
               \<and> odd (unat (size' this))
               \<and> snd (fst (Seek_src rs f1 1 1)) = None
            then offset (snd (Read rs this n)) = size' this + 1
            else offset (snd (Read rs this n)) \<le> size' this)"
    if le: "offset this \<le> size' this" and n: "n < 2 ^ 32"
      and src: "Read_src rs (file' this) (Read_len this n) = ((bs, err), f1)"
      and conf: "length bs \<le> Read_len this n"
  proof (cases "offset this = size' this")
    case True
    then show ?thesis by (simp add: Read_exhausted)
  next
    case False
    have "offset this + word_of_nat (length bs) \<le> size' this"
      using Read_advance [OF le n conf] by (simp add: word_le_nat_alt)
    then show ?thesis
      using False by (simp add: Read_step [OF le False n src conf])
  qed
  show ?thesis
    using new seek skip read by blast
qed

text \<open>
  On the test data: \<open>TEST\<close> (size 2) keeps its cursor within bounds under \<open>Seek\<close>,
  \<open>Skip\<close> and a \<open>Read\<close> that drains it; the \<open>Read\<close> that drains \<open>IN1 \<close> (size 1)
  takes the pad-byte branch.
\<close>

theorem cursor_bounds_witness:
  "New bytes_ReadSeeker (NewReader testString) = ((Some chunkTest, None), file' chunkTest)
   \<and> offset chunkTest = 0
   \<and> offset chunkTest \<le> size' chunkTest
   \<and> offset (snd (Seek bytes_ReadSeeker chunkTest 1 1)) = 1
   \<and> offset (Skip bytes_ReadSeeker chunkTest) = 2
   \<and> (10::nat) < 2 ^ 32
   \<and> Read_src bytes_ReadSeeker (file' chunkTest) (Read_len chunkTest 10) =
        (([42, 24], None), \<lparr>r_s = testString, r_i = 10\<rparr>)
   \<and> length [42, 24 :: byte] \<le> Read_len chunkTest 10
   \<and> offset (snd (Read bytes_ReadSeeker chunkTest 10)) = 2
   \<and> offset chunkIN1 \<le> size' chunkIN1
   \<and> Read_src bytes_ReadSeeker (file' chunkIN1) (Read_len chunkIN1 10) =
        (([255], None), \<lparr>r_s = testString, r_i = 27\<rparr>)
   \<and> length [255 :: byte] \<le> Read_len chunkIN1 10
   \<and> snd (fst (Seek_src bytes_ReadSeeker \<lparr>r_s = testString, r_i = 27\<rparr> 1 1)) = None
   \<and> offset (snd (Read bytes_ReadSeeker chunkIN1 10)) = size' chunkIN1 + 1"
proof -
  have new: "New bytes_ReadSeeker (NewReader testString) = ((Some chunkTest, None), file' chunkTest)"
    by (simp add: run_defs testString_def chunkTest_def)
  have le: "offset chunkTest \<le> size' chunkTest" "offset chunkIN1 \<le> size' chunkIN1"
    by (simp_all add: chunkTest_def chunkIN1_def)
  have n: "(10::nat) < 2 ^ 32" by simp
  have src: "Read_src bytes_ReadSeeker (file' chunkTest) (Read_len chunkTest 10) =
        (([42, 24], None), \<lparr>r_s = testString, r_i = 10\<rparr>)"
    by (simp add: run_defs testString_def chunkTest_def)
  have conf: "length [42, 24 :: byte] \<le> Read_len chunkTest 10"
    by (simp add: run_defs chunkTest_def)
  have src1: "Read_src bytes_ReadSeeker (file' chunkIN1) (Read_len chunkIN1 10) =
        (([255], None), \<lparr>r_s = testString, r_i = 27\<rparr>)"
    by (simp add: run_defs testString_def chunkIN1_def)
  have conf1: "length [255 :: byte] \<le> Read_len chunkIN1 10"
    by (simp add: run_defs chunkIN1_def)
  have pad: "snd (fst (Seek_src bytes_ReadSeeker \<lparr>r_s = testString, r_i = 27\<rparr> 1 1)) = None"
    by (simp add: run_defs)
  have seek: "offset (snd (Seek bytes_ReadSeeker chunkTest 1 1)) = 1"
    by (simp add: run_defs chunkTest_def)
  have skip: "offset (Skip bytes_ReadSeeker chunkTest) = 2"
    by (simp add: run_defs chunkTest_def)
  note a = cursor_bounds [where rs = bytes_ReadSeeker and f = "NewReader testString"
      and c = chunkTest and e = None and f' = "file' chunkTest" and this = chunkTest
      and off = 1 and whence = 1 and n = 10 and bs = "[42, 24]" and err = None
      and ?f1.0 = "\<lparr>r_s = testString, r_i = 10\<rparr>"]
  note b = cursor_bounds [where rs = bytes_ReadSeeker and f = "NewReader testString"
      and c = chunkTest and e = None and f' = "file' chunkTest" and this = chunkIN1
      and off = 1 and whence = 1 and n = 10 and bs = "[255]" and err = None
      and ?f1.0 = "\<lparr>r_s = testString, r_i = 27\<rparr>"]
  show ?thesis
    using a b new le n src conf src1 conf1 pad seek skip
    by (simp add: run_defs testString_def chunkTest_def chunkIN1_def)
qed

text \<open>
  Claim C2: once \<open>declaredSize\<close> bytes have been read, every later \<open>Read\<close> returns
  no bytes and \<open>io.EOF\<close>, for odd and even sizes. The code does so only while the
  cursor equals \<open>declaredSize\<close>; after an odd-sized chunk is drained the cursor is
  \<open>declaredSize + 1\<close>, the test \<open>this.offset == this.size\<close> fails, the \<open>uint32\<close>
  difference \<open>this.size - this.offset\<close> wraps to \<open>2 ^ 32 - 1\<close>, and the read goes on
  into the bytes behind the chunk. On the test data the second \<open>Read\<close> of \<open>IN1 \<close>
  returns one byte, the \<open>I\<close> of the header of \<open>IN2 \<close>, and no error.
\<close>

theorem Read_after_odd_drain_is_not_EOF:
  "New bytes_ReadSeeker (file' chunkFoo) = ((Some chunkIN1, None), file' chunkIN1)
   \<and> size' chunkIN1 = 1
   \<and> Read bytes_ReadSeeker chunkIN1 1 = (([255], None), chunkIN1_drained)
   \<and> Read bytes_ReadSeeker chunkIN1_drained 1 =
        (([73], None), chunkIN1_drained\<lparr>file' := \<lparr>r_s = testString, r_i = 29\<rparr>, offset := 3\<rparr>)"
  by (simp add: run_defs testString_def chunkFoo_def chunkIN1_def chunkIN1_drained_def)

theorem Read_after_odd_drain_is_not_EOF_witness:
  "fst (Read bytes_ReadSeeker chunkIN1_drained 1) = ([73], None)
   \<and> fst (Read bytes_ReadSeeker chunkIN1_drained 1) \<noteq> ([], Some EOF)"
  using Read_after_odd_drain_is_not_EOF by simp

text \<open>
  Claim C5 says that, in every state reachable after construction and for every buffer
  length \<open>n\<close>, \<open>Read\<close> asks the source for at most \<open>min(n, declaredSize - cursor)\<close>
  bytes and advances the cursor by the count it returns. On the test data the \<open>Read\<close>
  that drains \<open>IN1 \<close> returns one byte and advances the cursor by two (the pad-byte
  branch); in the state it leaves (cursor 2, size 1) a buffer of 10 is handed to the
  source whole and filled with the ten bytes behind the chunk; and a buffer of
  \<open>2 ^ 32\<close> bytes is handed whole to the source of \<open>TEST\<close>, which has two bytes left
  (\<open>uint32(len(buffer))\<close> is 0).
\<close>

theorem Read_advances_past_count:
  "New bytes_ReadSeeker (file' chunkFoo) = ((Some chunkIN1, None), file' chunkIN1)
   \<and> fst (Read bytes_ReadSeeker chunkIN1 10) = ([255], None)
   \<and> offset chunkIN1 = 0
   \<and> offset (snd (Read bytes_ReadSeeker chunkIN1 10)) = 2
   \<and> snd (Read bytes_ReadSeeker chunkIN1 10) = chunkIN1_drained
   \<and> size' chunkIN1_drained = 1
   \<and> Read_len chunkIN1_drained 10 = 10
   \<and> fst (Read bytes_ReadSeeker chunkIN1_drained 10) =
        ([73, 78, 50, 32, 0, 0, 0, 2, 127, 129], None)
   \<and> size' chunkTest = 2
   \<and> Read_len chunkTest 4294967296 = 4294967296"
  by (simp add: run_defs testString_def chunkFoo_def chunkIN1_def chunkIN1_drained_def
        chunkTest_def)

text \<open>
  Claim C5, amended. For every chunk with the cursor within \<open>[0, declaredSize]\<close> and
  every buffer length \<open>n < 2 ^ 32\<close>, \<open>Read\<close> asks the underlying source for exactly
  \<open>min(n, declaredSize - cursor)\<close> bytes (and for none when the cursor equals
  \<open>declaredSize\<close>: it returns no bytes and \<open>io.EOF\<close>), returns the bytes and the error
  of the source, and advances the cursor by the count read, plus one when the read
  drains an odd-sized chunk and the source's pad-byte seek reports no error. With a
  source that returns no more bytes than it was asked for, cursor plus count never
  passes \<open>declaredSize\<close>. The source is left as that one read leaves it, or, when the
  read drains an odd-sized chunk, as the one pad-byte seek \<open>Seek(1, 1)\<close> behind that
  read leaves it: \<open>Read\<close> makes no other call on the source.
\<close>

theorem Read_bounded:
  assumes le: "offset this \<le> size' this" and n: "n < 2 ^ 32"
    and src: "Read_src rs (file' this) (Read_len this n) = ((bs, err), f1)"
    and conf: "length bs \<le> Read_len this n"
  shows "Read_len this n = min n (unat (size' this) - unat (offset this))
    \<and> unat (offset this) + length bs \<le> unat (size' this)
    \<and> (offset this = size' this \<longrightarrow> Read rs this n = (([], Some EOF), this))
    \<and> (offset this \<noteq> size' this \<longrightarrow>
          fst (Read rs this n) = (bs, err)
          \<and> unat (offset this + word_of_nat (length bs)) = unat (offset this) + length bs
          \<and> offset (snd (Read rs this n)) =
              offset this + word_of_nat (length bs) +
              (if unat (offset this) + length bs = unat (size' this) \<and> odd (unat (size' this))
                  \<and> snd (fst (Seek_src rs f1 1 1)) = None
               then 1 else 0)
          \<and> file' (snd (Read rs this n)) =
              (if unat (offset this) + length bs = unat (size' this) \<and> odd (unat (size' this))
               then snd (Seek_src rs f1 1 1) else f1)
          \<and> Read rs this n =
              ((bs, err),
               this\<lparr>file' :=
                      (if unat (offset this) + length bs = unat (size' this)
                          \<and> odd (unat (size' this))
                       then snd (Seek_src rs f1 1 1) else f1),
                    offset :=
                      offset this + word_of_nat (length bs) +
                      (if unat (offset this) + length bs = unat (size' this)
                          \<and> odd (unat (size' this))
                          \<and> snd (fst (Seek_src rs f1 1 1)) = None
                       then 1 else 0)\<rparr>))"
proof -
  have e: "offset this + word_of_nat (length bs) = size' this"
    if "unat (offset this) + length bs = unat (size' this)"
    using that by (simp add: word_unat_eq_iff Read_advance(2) [OF le n conf])
  have r: "Read rs this n =
              ((bs, err),
               this\<lparr>file' :=
                      (if unat (offset this) + length bs = unat (size' this)
                          \<and> odd (unat (size' this))
                       then snd (Seek_src rs f1 1 1) else f1),
                    offset :=
                      offset this + word_of_nat (length bs) +
                      (if unat (offset this) + length bs = unat (size' this)
                          \<and> odd (unat (size' this))
                          \<and> snd (fst (Seek_src rs f1 1 1)) = None
                       then 1 else 0)\<rparr>)"
    if ne: "offset this \<noteq> size' this"
    using e by (simp add: Read_step [OF le ne n src conf])
  have "fst (Read rs this n) = (bs, err)
          \<and> offset (snd (Read rs this n)) =
              offset this + word_of_nat (length bs) +
              (if unat (offset this) + length bs = unat (size' this) \<and> odd (unat (size' this))
                  \<and> snd (fst (Seek_src rs f1 1 1)) = None
               then 1 else 0)
          \<and> file' (snd (Read rs this n)) =
              (if unat (offset this) + length bs = unat (size' this) \<and> odd (unat (size' this))
               then snd (Seek_src rs f1 1 1) else f1)"
    if ne: "offset this \<noteq> size' this"
    by (simp add: r [OF ne])
  then show ?thesis
    using r Read_len_min [OF le n] Read_advance [OF le n conf] Read_exhausted [of this rs n]
    by simp
qed

text \<open>
  A buffer of 8 on \<open>FOO \<close> (20 bytes left) is read in full and leaves the reader at 26;
  a buffer of 10 on \<open>TEST\<close> (2 bytes left) is cut to 2 and leaves the reader at 10; a
  buffer of 10 on \<open>IN1 \<close> (1 byte left) is cut to 1, and the reader is left at 28,
  behind the pad byte.
\<close>

theorem Read_bounded_witness:
  "offset chunkFoo \<le> size' chunkFoo \<and> (8::nat) < 2 ^ 32
   \<and> Read_src bytes_ReadSeeker (file' chunkFoo) (Read_len chunkFoo 8) =
        (([73, 78, 49, 32, 0, 0, 0, 1], None), \<lparr>r_s = testString, r_i = 26\<rparr>)
   \<and> length [73, 78, 49, 32, 0, 0, 0, 1 :: byte] \<le> Read_len chunkFoo 8
   \<and> Read_len chunkFoo 8 = 8
   \<and> Read bytes_ReadSeeker chunkFoo 8 =
        (([73, 78, 49, 32, 0, 0, 0, 1], None),
         chunkFoo\<lparr>file' := \<lparr>r_s = testString, r_i = 26\<rparr>, offset := 8\<rparr>)
   \<and> offset chunkTest \<le> size' chunkTest \<and> (10::nat) < 2 ^ 32
   \<and> Read_src bytes_ReadSeeker (file' chunkTest) (Read_len chunkTest 10) =
        (([42, 24], None), \<lparr>r_s = testString, r_i = 10\<rparr>)
   \<and> length [42, 24 :: byte] \<le> Read_len chunkTest 10
   \<and> Read_len chunkTest 10 = 2
   \<and> fst (Read bytes_ReadSeeker chunkTest 10) = ([42, 24], None)
   \<and> offset (snd (Read bytes_ReadSeeker chunkTest 10)) = 2
   \<and> file' (snd (Read bytes_ReadSeeker chunkTest 10)) = \<lparr>r_s = testString, r_i = 10\<rparr>
   \<and> offset chunkIN1 \<le> size' chunkIN1
   \<and> Read_src bytes_ReadSeeker (file' chunkIN1) (Read_len chunkIN1 10) =
        (([255], None), \<lparr>r_s = testString, r_i = 27\<rparr>)
   \<and> length [255 :: byte] \<le> Read_len chunkIN1 10
   \<and> Read_len chunkIN1 10 = 1
   \<and> Read bytes_ReadSeeker chunkIN1 10 =
        (([255], None), chunkIN1\<lparr>file' := \<lparr>r_s = testString, r_i = 28\<rparr>, offset := 2\<rparr>)"
proof -
  have le: "offset chunkFoo \<le> size' chunkFoo" and n: "(8::nat) < 2 ^ 32"
    by (simp_all add: chunkFoo_def)
  have src: "Read_src bytes_ReadSeeker (file' chunkFoo) (Read_len chunkFoo 8) =
        (([73, 78, 49, 32, 0, 0, 0, 1], None), \<lparr>r_s = testString, r_i = 26\<rparr>)"
    by (simp add: run_defs testString_def chunkFoo_def)
  have conf: "length [73, 78, 49, 32, 0, 0, 0, 1 :: byte] \<le> Read_len chunkFoo 8"
    by (simp add: run_defs chunkFoo_def)
  have le': "offset chunkTest \<le> size' chunkTest" and n': "(10::nat) < 2 ^ 32"
    by (simp_all add: chunkTest_def)
  have src': "Read_src bytes_ReadSeeker (file' chunkTest) (Read_len chunkTest 10) =
        (([42, 24], None), \<lparr>r_s = testString, r_i = 10\<rparr>)"
    by (simp add: run_defs testString_def chunkTest_def)
  have conf': "length [42, 24 :: byte] \<le> Read_len chunkTest 10"
    by (simp add: run_defs chunkTest_def)
  have le'': "offset chunkIN1 \<le> size' chunkIN1"
    by (simp add: chunkIN1_def)
  have src'': "Read_src bytes_ReadSeeker (file' chunkIN1) (Read_len chunkIN1 10) =
        (([255], None), \<lparr>r_s = testString, r_i = 27\<rparr>)"
    by (simp add: run_defs testString_def chunkIN1_def)
  have conf'': "length [255 :: byte] \<le> Read_len chunkIN1 10"
    by (simp add: run_defs chunkIN1_def)
  show ?thesis
    using le n src conf le' n' src' conf' le'' src'' conf'' Read_bounded [OF le n src conf]
      Read_bounded [OF le' n' src' conf'] Read_bounded [OF le'' n' src'' conf'']
    by (simp add: run_defs testString_def chunkFoo_def chunkTest_def chunkIN1_def)
qed

section \<open>Construction\<close>

text \<open>
  Claim C3: a header read that returns more than zero but fewer than 4 bytes makes
  construction fail with an error. The code returns \<open>nil, err\<close> with the error of
  that read, and a short read of \<open>bytes.Reader\<close> reports no error: \<open>New\<close> returns
  neither a chunk nor an error, for a short tag (2 bytes) and for a short size field
  (6 bytes).
\<close>

theorem New_partial_header_returns_nil_nil:
  "New bytes_ReadSeeker (NewReader [84, 69]) = ((None, None), \<lparr>r_s = [84, 69], r_i = 2\<rparr>)
   \<and> New bytes_ReadSeeker (NewReader [84, 69, 83, 84, 0, 0]) =
        ((None, None), \<lparr>r_s = [84, 69, 83, 84, 0, 0], r_i = 6\<rparr>)"
  by (simp add: run_defs)

theorem New_partial_header_returns_nil_nil_witness:
  "fst (New bytes_ReadSeeker (NewReader [84, 69])) = (None, None)
   \<and> fst (New bytes_ReadSeeker (NewReader [84, 69, 83, 84, 0, 0])) = (None, None)"
  using New_partial_header_returns_nil_nil by simp

text \<open>
  Claim C6 says that the base of the new chunk is the source's absolute position
  behind the header. The field is a \<open>uint32\<close> and the code stores \<open>uint32(base)\<close>:
  on a reader that stands at index \<open>2 ^ 32\<close> of its data the position behind the
  header is \<open>2 ^ 32 + 8\<close> and the base of the chunk is 8.
\<close>

theorem New_base_truncated:
  "r_i bigReader + 8 \<le> length (r_s bigReader)
   \<and> New bytes_ReadSeeker bigReader = ((Some chunkBig, None), file' chunkBig)
   \<and> r_i (file' chunkBig) = 4294967304
   \<and> unat (base chunkBig) = 8"
  by (simp add: run_defs testString_def bigReader_def chunkBig_def)

text \<open>
  Claim C6, amended. For every source whose two header reads return 4 bytes each and no
  error, construction returns a chunk whose tag is the first 4 bytes as they are, whose
  \<open>declaredSize\<close> is the big-endian unsigned 32-bit value of the next 4 bytes, whose
  base is the position the source reports behind the header (the result of
  \<open>Seek(0, 1)\<close>), cut to 32 bits, which is that position when it is below \<open>2 ^ 32\<close>,
  and whose cursor is 0. On a \<open>bytes.Reader\<close> with 8 bytes left construction succeeds
  and the position advances by exactly 8.
\<close>

theorem New_header:
  "(Read_src rs f 4 = ((ident, None), f1) \<and> length ident = 4
    \<and> Read_src rs f1 4 = ((sizeBits, None), f2) \<and> length sizeBits = 4
    \<and> Seek_src rs f2 0 1 = ((pos, e), f3) \<longrightarrow>
      New rs f = ((Some \<lparr>file' = f3, id' = ident, size' = sizeOf sizeBits,
                          base = ucast pos, offset = 0\<rparr>, None), f3)
      \<and> unat (sizeOf sizeBits) = be32 sizeBits
      \<and> uint (ucast pos :: uint32) = uint pos mod 2 ^ 32
      \<and> (0 \<le> sint pos \<and> sint pos < 2 ^ 32 \<longrightarrow> uint (ucast pos :: uint32) = sint pos))
   \<and> (r_i r + 8 \<le> length (r_s r) \<longrightarrow>
      New bytes_ReadSeeker r =
        ((Some \<lparr>file' = r\<lparr>r_i := r_i r + 8\<rparr>, id' = take 4 (drop (r_i r) (r_s r)),
                size' = sizeOf (take 4 (drop (r_i r + 4) (r_s r))),
                base = word_of_nat (r_i r + 8), offset = 0\<rparr>, None), r\<lparr>r_i := r_i r + 8\<rparr>))"
proof -
  have t: "uint (ucast pos :: uint32) = uint pos mod 2 ^ 32"
    by (simp add: unsigned_ucast_eq take_bit_eq_mod)
  show ?thesis
    using New_full_header [of rs f ident f1 sizeBits f2 pos e f3] unat_sizeOf [of sizeBits] t
      ucast_pos32 [of pos] New_bytes_Reader [of r]
    by blast
qed

text \<open>
  The header of \<open>TEST\<close> in the test data, and the size field \<open>0x12345678\<close> of
  \<open>TestHeader\<close>.
\<close>

theorem New_header_witness:
  "Read_src bytes_ReadSeeker (NewReader testString) 4 =
      (([84, 69, 83, 84], None), \<lparr>r_s = testString, r_i = 4\<rparr>)
   \<and> length [84, 69, 83, 84 :: byte] = 4
   \<and> Read_src bytes_ReadSeeker \<lparr>r_s = testString, r_i = 4\<rparr> 4 =
      (([0, 0, 0, 2], None), \<lparr>r_s = testString, r_i = 8\<rparr>)
   \<and> length [0, 0, 0, 2 :: byte] = 4
   \<and> Seek_src bytes_ReadSeeker \<lparr>r_s = testString, r_i = 8\<rparr> 0 1 =
      ((8, None), \<lparr>r_s = testString, r_i = 8\<rparr>)
   \<and> 0 \<le> sint (8 :: int64) \<and> sint (8 :: int64) < 2 ^ 32
   \<and> r_i (NewReader testString) + 8 \<le> length (r_s (NewReader testString))
   \<and> New bytes_ReadSeeker (NewReader testString) =
       ((Some \<lparr>file' = \<lparr>r_s = testString, r_i = 8\<rparr>, id' = [84, 69, 83, 84],
               size' = 2, base = 8, offset = 0\<rparr>, None), \<lparr>r_s = testString, r_i = 8\<rparr>)
   \<and> be32 [0, 0, 0, 2] = 2
   \<and> be32 [18, 52, 86, 120] = 305419896
   \<and> unat (sizeOf [18, 52, 86, 120]) = 305419896"
proof -
  have 1: "Read_src bytes_ReadSeeker (NewReader testString) 4 =
      (([84, 69, 83, 84], None), \<lparr>r_s = testString, r_i = 4\<rparr>)"
    by (simp add: run_defs testString_def)
  have 2: "Read_src bytes_ReadSeeker \<lparr>r_s = testString, r_i = 4\<rparr> 4 =
      (([0, 0, 0, 2], None), \<lparr>r_s = testString, r_i = 8\<rparr>)"
    by (simp add: run_defs testString_def)
  have 3: "Seek_src bytes_ReadSeeker \<lparr>r_s = testString, r_i = 8\<rparr> 0 1 =
      ((8, None), \<lparr>r_s = testString, r_i = 8\<rparr>)"
    by (simp add: run_defs)
  have 4: "0 \<le> sint (8 :: int64)" "sint (8 :: int64) < 2 ^ 32"
    by simp_all
  have 5: "r_i (NewReader testString) + 8 \<le> length (r_s (NewReader testString))"
    by (simp add: NewReader_def testString_def)
  show ?thesis
    using 1 2 3 4 5
      New_header [of bytes_ReadSeeker "NewReader testString" "[84, 69, 83, 84]"
        "\<lparr>r_s = testString, r_i = 4\<rparr>" "[0, 0, 0, 2]" "\<lparr>r_s = testString, r_i = 8\<rparr>" 8 None
        "\<lparr>r_s = testString, r_i = 8\<rparr>" "NewReader testString"]
      New_header [of bytes_ReadSeeker "NewReader testString" "[84, 69, 83, 84]"
        "\<lparr>r_s = testString, r_i = 4\<rparr>" "[18, 52, 86, 120]" "\<lparr>r_s = testString, r_i = 8\<rparr>" 8 None
        "\<lparr>r_s = testString, r_i = 8\<rparr>" "NewReader testString"]
    by (simp add: be32_def sizeOf_def)
qed

section \<open>Skip and Seek within the chunk\<close>

text \<open>
  Claim C4 says that \<open>Skip\<close> rounds \<open>base + declaredSize\<close> up if and only if
  \<open>declaredSize\<close> is odd. The code tests the sum, not the size (\<open>pos&1 == 1\<close>, "we
  must always start on even boundaries"). For a chunk whose header starts at index 1,
  so that its base is 9, and whose size is 2, \<open>Skip\<close> leaves the reader at 12, not at
  \<open>base + declaredSize = 11\<close>.
\<close>

theorem Skip_odd_base_rounds_even_size:
  "New bytes_ReadSeeker oddReader = ((Some chunkOdd, None), file' chunkOdd)
   \<and> base chunkOdd = 9 \<and> size' chunkOdd = 2
   \<and> r_i (file' (Skip bytes_ReadSeeker chunkOdd)) = 12
   \<and> r_i (file' (Skip bytes_ReadSeeker chunkOdd)) \<noteq> unat (base chunkOdd) + unat (size' chunkOdd)"
  by (simp add: run_defs testString_def oddReader_def chunkOdd_def)

text \<open>
  Claim C4, amended. For every chunk and every prior cursor position, \<open>Skip\<close> sets the
  cursor to \<open>declaredSize\<close> and makes one absolute seek on the underlying source, to
  \<open>pos = base + declaredSize\<close> (a \<open>uint32\<close> sum) and to \<open>pos + 1\<close> if and only if
  \<open>pos\<close> is odd: the next even absolute offset. Where the sum does not overflow this is
  \<open>base + declaredSize\<close> rounded up to even, and for an even base the rounding happens
  exactly when \<open>declaredSize\<close> is odd. A \<open>bytes.Reader\<close> ends at that position.
\<close>

theorem Skip_position:
  "Skip rs this = this\<lparr>offset := size' this,
                         file' := snd (Seek_src rs (file' this) (ucast (Skip_pos this)) 0)\<rparr>
   \<and> sint (ucast (Skip_pos this) :: int64) = int (unat (Skip_pos this))
   \<and> unat (Skip_pos this) =
        (if odd (unat (base this) + unat (size' this))
         then ((unat (base this) + unat (size' this)) mod 2 ^ 32 + 1) mod 2 ^ 32
         else (unat (base this) + unat (size' this)) mod 2 ^ 32)
   \<and> (unat (base this) + unat (size' this) + 1 < 2 ^ 32 \<longrightarrow>
        unat (Skip_pos this) =
          (if odd (unat (base this) + unat (size' this))
           then unat (base this) + unat (size' this) + 1
           else unat (base this) + unat (size' this)))
   \<and> (even (unat (base this)) \<longrightarrow>
        odd (unat (base this) + unat (size' this)) = odd (unat (size' this)))
   \<and> r_i (file' (Skip bytes_ReadSeeker c)) = unat (Skip_pos c)"
proof -
  have 1: "sint (ucast (Skip_pos this) :: int64) = int (unat (Skip_pos this))"
    by (simp add: sint_ucast32)
  have 2: "unat (Skip_pos this) =
          (if odd (unat (base this) + unat (size' this))
           then unat (base this) + unat (size' this) + 1
           else unat (base this) + unat (size' this))"
    if "unat (base this) + unat (size' this) + 1 < 2 ^ 32"
    using unat_Skip_pos_no_overflow [OF that] by auto
  have 3: "r_i (file' (Skip bytes_ReadSeeker c)) = unat (Skip_pos c)"
    by (simp add: Skip_eq bytes_ReadSeeker_def bytes_Seek_def sint_ucast32)
  show ?thesis
    using 1 2 3 unat_Skip_pos [of this] Skip_eq [of rs this] by simp
qed

text \<open>\<open>IN1 \<close> (base 26, size 1) is skipped to 28, \<open>FOO \<close> (base 18, size 20) to 38.\<close>

theorem Skip_position_witness:
  "Skip bytes_ReadSeeker chunkIN1 = chunkIN1\<lparr>offset := 1, file' := \<lparr>r_s = testString, r_i = 28\<rparr>\<rparr>
   \<and> unat (base chunkIN1) + unat (size' chunkIN1) + 1 < 2 ^ 32
   \<and> even (unat (base chunkIN1))
   \<and> odd (unat (size' chunkIN1))
   \<and> unat (Skip_pos chunkIN1) = 28
   \<and> r_i (file' (Skip bytes_ReadSeeker chunkFoo)) = 38"
proof -
  have h: "unat (base chunkIN1) + unat (size' chunkIN1) + 1 < 2 ^ 32" "even (unat (base chunkIN1))"
    by (simp_all add: chunkIN1_def)
  have s: "Seek_src bytes_ReadSeeker (file' chunkIN1) 28 0 = ((28, None), \<lparr>r_s = testString, r_i = 28\<rparr>)"
    by (simp add: run_defs chunkIN1_def)
  show ?thesis
    using h s Skip_position [of bytes_ReadSeeker chunkIN1 chunkFoo]
    by (simp add: run_defs chunkIN1_def chunkFoo_def)
qed

text \<open>
  Claim C7 says that, whenever the target lies in \<open>[0, declaredSize]\<close>, \<open>Seek\<close> sets
  the cursor to the target and returns it. The code does so only if the source's seek
  reports no error (\<open>if err != nil { return ... }\<close>). \<open>chunkLong\<close> declares 100 bytes
  inside a chunk of 12: its seek to 50 is within its own bounds, the source rejects
  the position, and the cursor stays at 0.
\<close>

theorem Seek_source_rejects:
  "New (Chunk_ReadSeeker bytes_ReadSeeker)
      (chunkShort\<lparr>file' := \<lparr>r_s = shortString, r_i = 8\<rparr>, offset := 0\<rparr>)
     = ((Some chunkLong, None), file' chunkLong)
   \<and> Seek_target_spec chunkLong 50 0 = 50
   \<and> size' chunkLong = 100
   \<and> offset chunkLong = 0
   \<and> Seek (Chunk_ReadSeeker bytes_ReadSeeker) chunkLong 50 0 =
        ((0, Some (ErrorString ''Invalid seek offset'')), chunkLong)"
  by (simp add: run_defs Seek_target_spec_def shortString_def chunkShort_def chunkLong_def)

text \<open>
  Claim C7, amended. For every chunk and every \<open>(offset, whence)\<close>, \<open>Seek\<close> computes the
  target as \<open>offset\<close> from the start, \<open>cursor + offset\<close> from the current position and
  \<open>declaredSize + offset\<close> from the end. When the target lies in \<open>[0, declaredSize]\<close>
  it asks the underlying source for one absolute seek to \<open>base + target\<close>; if that
  seek reports no error it sets the cursor to the target and returns the target, and
  otherwise it leaves the cursor alone and returns the source's error. The source is
  left as that one seek leaves it: a seek to exactly \<open>declaredSize\<close> consumes no pad
  byte, also when \<open>declaredSize\<close> is odd.
\<close>

theorem Seek_within_chunk:
  assumes "0 \<le> Seek_target_spec this off whence"
    and "Seek_target_spec this off whence \<le> uint (size' this)"
    and "Seek_src rs (file' this)
           (word_of_int (uint (base this) + Seek_target_spec this off whence)) 0 = ((pos, err), f1)"
  shows "sint (Seek_target this off whence) = Seek_target_spec this off whence
    \<and> file' (snd (Seek rs this off whence)) = f1
    \<and> (err = None \<longrightarrow>
          Seek rs this off whence =
            ((word_of_int (Seek_target_spec this off whence), None),
             this\<lparr>file' := f1, offset := word_of_int (Seek_target_spec this off whence)\<rparr>)
          \<and> uint (offset (snd (Seek rs this off whence))) = Seek_target_spec this off whence
          \<and> sint (fst (fst (Seek rs this off whence))) = Seek_target_spec this off whence)
    \<and> (err \<noteq> None \<longrightarrow>
          Seek rs this off whence = ((pos - ucast (base this), err), this\<lparr>file' := f1\<rparr>))"
  using Seek_in_range [OF assms] Seek_target_spec_repr [OF assms(1,2)]
  by (simp add: Seek_target_of_int)

text \<open>
  A seek of \<open>IN1 \<close> (base 26, size 1) to its end leaves the reader at 27, before the
  pad byte; the seek of \<open>TestSeek\<close> to -3 from the end of \<open>FOO \<close> lands at 17; the
  seek of \<open>chunkLong\<close> to 50 is rejected by its source.
\<close>

theorem Seek_within_chunk_witness:
  "0 \<le> Seek_target_spec chunkIN1 1 0
   \<and> Seek_target_spec chunkIN1 1 0 \<le> uint (size' chunkIN1)
   \<and> Seek_src bytes_ReadSeeker (file' chunkIN1)
        (word_of_int (uint (base chunkIN1) + Seek_target_spec chunkIN1 1 0)) 0 =
        ((27, None), \<lparr>r_s = testString, r_i = 27\<rparr>)
   \<and> Seek bytes_ReadSeeker chunkIN1 1 0 =
        ((1, None), chunkIN1\<lparr>file' := \<lparr>r_s = testString, r_i = 27\<rparr>, offset := 1\<rparr>)
   \<and> 0 \<le> Seek_target_spec chunkFoo (- 3) 2
   \<and> Seek_target_spec chunkFoo (- 3) 2 \<le> uint (size' chunkFoo)
   \<and> Seek_target_spec chunkFoo (- 3) 2 = 17
   \<and> Seek bytes_ReadSeeker chunkFoo (- 3) 2 =
        ((17, None), chunkFoo\<lparr>file' := \<lparr>r_s = testString, r_i = 35\<rparr>, offset := 17\<rparr>)
   \<and> 0 \<le> Seek_target_spec chunkLong 50 0
   \<and> Seek_target_spec chunkLong 50 0 \<le> uint (size' chunkLong)
   \<and> Seek_src (Chunk_ReadSeeker bytes_ReadSeeker) (file' chunkLong)
        (word_of_int (uint (base chunkLong) + Seek_target_spec chunkLong 50 0)) 0 =
        ((8, Some (ErrorString ''Invalid seek offset'')), chunkShort)
   \<and> Seek (Chunk_ReadSeeker bytes_ReadSeeker) chunkLong 50 0 =
        ((0, Some (ErrorString ''Invalid seek offset'')), chunkLong)"
proof -
  have a: "0 \<le> Seek_target_spec chunkIN1 1 0"
    "Seek_target_spec chunkIN1 1 0 \<le> uint (size' chunkIN1)"
    by (simp_all add: Seek_target_spec_def chunkIN1_def)
  have s: "Seek_src bytes_ReadSeeker (file' chunkIN1)
        (word_of_int (uint (base chunkIN1) + Seek_target_spec chunkIN1 1 0)) 0 =
        ((27, None), \<lparr>r_s = testString, r_i = 27\<rparr>)"
    by (simp add: run_defs Seek_target_spec_def chunkIN1_def)
  have b: "0 \<le> Seek_target_spec chunkFoo (- 3) 2"
    "Seek_target_spec chunkFoo (- 3) 2 \<le> uint (size' chunkFoo)"
    by (simp_all add: Seek_target_spec_def chunkFoo_def)
  have s': "Seek_src bytes_ReadSeeker (file' chunkFoo)
        (word_of_int (uint (base chunkFoo) + Seek_target_spec chunkFoo (- 3) 2)) 0 =
        ((35, None), \<lparr>r_s = testString, r_i = 35\<rparr>)"
    by (simp add: run_defs Seek_target_spec_def chunkFoo_def)
  have c: "0 \<le> Seek_target_spec chunkLong 50 0"
    "Seek_target_spec chunkLong 50 0 \<le> uint (size' chunkLong)"
    by (simp_all add: Seek_target_spec_def chunkLong_def)
  have s'': "Seek_src (Chunk_ReadSeeker bytes_ReadSeeker) (file' chunkLong)
        (word_of_int (uint (base chunkLong) + Seek_target_spec chunkLong 50 0)) 0 =
        ((8, Some (ErrorString ''Invalid seek offset'')), chunkShort)"
    by (simp add: run_defs Seek_target_spec_def chunkLong_def chunkShort_def)
  show ?thesis
    using a s b c s'' Seek_within_chunk [OF a s] Seek_within_chunk [OF b s']
      Seek_within_chunk [OF c s'']
    by (simp add: Seek_target_spec_def chunkIN1_def chunkFoo_def chunkLong_def)
qed

section \<open>The claims about \<open>Seek\<close> and \<open>Skip\<close> that hold as stated\<close>

text \<open>
  Claim C8. For every chunk and every \<open>(offset, whence)\<close> whose target (the integer
  \<open>Seek_target_spec\<close>) is negative or exceeds \<open>declaredSize\<close>, \<open>Seek\<close> fails with
  the error \<open>Invalid seek offset\<close>, leaves the cursor unchanged, does not touch the
  underlying source (the chunk, with its source, is returned as it was), and the
  position it returns next to the error is the unchanged cursor.
\<close>

theorem Seek_invalid_offset:
  assumes "Seek_target_spec this off whence < 0 \<or>
           uint (size' this) < Seek_target_spec this off whence"
  shows "Seek rs this off whence =
           ((ucast (offset this), Some (ErrorString ''Invalid seek offset'')), this)
         \<and> offset (snd (Seek rs this off whence)) = offset this
         \<and> file' (snd (Seek rs this off whence)) = file' this
         \<and> sint (fst (fst (Seek rs this off whence))) = uint (offset this)"
  using Seek_out_of_range [OF assms, of rs] by (simp add: sint_ucast32)

text \<open>
  On \<open>FOO \<close> (size 20) a seek to 21 from the start, and on the drained \<open>IN1 \<close>
  (cursor 2) a seek of -3 from the current position (target -1).
\<close>

theorem Seek_invalid_offset_witness:
  "(Seek_target_spec chunkFoo 21 0 < 0 \<or> uint (size' chunkFoo) < Seek_target_spec chunkFoo 21 0)
   \<and> (Seek_target_spec chunkIN1_drained (- 3) 1 < 0 \<or>
        uint (size' chunkIN1_drained) < Seek_target_spec chunkIN1_drained (- 3) 1)
   \<and> Seek bytes_ReadSeeker chunkFoo 21 0 =
        ((0, Some (ErrorString ''Invalid seek offset'')), chunkFoo)
   \<and> Seek bytes_ReadSeeker chunkIN1_drained (- 3) 1 =
        ((2, Some (ErrorString ''Invalid seek offset'')), chunkIN1_drained)"
proof -
  have h1: "Seek_target_spec chunkFoo 21 0 < 0 \<or>
            uint (size' chunkFoo) < Seek_target_spec chunkFoo 21 0"
    by (simp add: Seek_target_spec_def chunkFoo_def)
  have h2: "Seek_target_spec chunkIN1_drained (- 3) 1 < 0 \<or>
            uint (size' chunkIN1_drained) < Seek_target_spec chunkIN1_drained (- 3) 1"
    by (simp add: Seek_target_spec_def chunkIN1_drained_def)
  show ?thesis
    using h1 h2 Seek_invalid_offset [OF h1, of bytes_ReadSeeker]
      Seek_invalid_offset [OF h2, of bytes_ReadSeeker]
    by (simp add: chunkFoo_def chunkIN1_drained_def)
qed

text \<open>
  Claim C9. For every whence other than 1 (from-current) and 2 (from-end), also an
  invalid one such as 3 or -1, \<open>Seek\<close> takes the offset itself as the target and
  behaves as the call with whence 0 does: the whence argument is never rejected.
\<close>

theorem Seek_other_whence_is_from_start:
  assumes "whence \<noteq> 1" "whence \<noteq> 2"
  shows "Seek_target this off whence = off \<and> Seek rs this off whence = Seek rs this off 0"
  using assms by (simp add: Seek_def Seek_target_def)

text \<open>With whence 3 and whence -1 the seek of \<open>FOO \<close> to 1 succeeds.\<close>

theorem Seek_other_whence_is_from_start_witness:
  "(3::int) \<noteq> 1 \<and> (3::int) \<noteq> 2 \<and> (- 1::int) \<noteq> 1 \<and> (- 1::int) \<noteq> 2
   \<and> Seek bytes_ReadSeeker chunkFoo 1 3 =
        ((1, None), chunkFoo\<lparr>file' := \<lparr>r_s = testString, r_i = 19\<rparr>, offset := 1\<rparr>)
   \<and> Seek bytes_ReadSeeker chunkFoo 1 (- 1) =
        ((1, None), chunkFoo\<lparr>file' := \<lparr>r_s = testString, r_i = 19\<rparr>, offset := 1\<rparr>)"
proof -
  have a: "(3::int) \<noteq> 1" "(3::int) \<noteq> 2" and b: "(- 1::int) \<noteq> 1" "(- 1::int) \<noteq> 2"
    by simp_all
  have s: "Seek bytes_ReadSeeker chunkFoo 1 0 =
        ((1, None), chunkFoo\<lparr>file' := \<lparr>r_s = testString, r_i = 19\<rparr>, offset := 1\<rparr>)"
    by (simp add: run_defs chunkFoo_def)
  show ?thesis
    using Seek_other_whence_is_from_start [OF a, of chunkFoo 1 bytes_ReadSeeker]
      Seek_other_whence_is_from_start [OF b, of chunkFoo 1 bytes_ReadSeeker] s
    by simp
qed

text \<open>
  Claim C10. \<open>Skip\<close> has no result besides the chunk and does not look at what the
  source's seek reports: for every chunk and every source, after \<open>Skip\<close> the cursor
  equals \<open>declaredSize\<close> and every read returns no bytes and \<open>io.EOF\<close>; when the
  source's seek fails and leaves the source where it was, \<open>Skip\<close> has changed the
  cursor and nothing else.
\<close>

theorem Skip_ignores_seek_error:
  "offset (Skip rs this) = size' this
   \<and> size' (Skip rs this) = size' this
   \<and> Read rs (Skip rs this) n = (([], Some EOF), Skip rs this)
   \<and> (Seek_src rs (file' this) (ucast (Skip_pos this)) 0 = ((pos, Some e), file' this)
        \<longrightarrow> Skip rs this = this\<lparr>offset := size' this\<rparr>)"
proof -
  have "offset (Skip rs this) = size' (Skip rs this)"
    by (simp add: Skip_eq)
  then have "Read rs (Skip rs this) n = (([], Some EOF), Skip rs this)"
    by (rule Read_exhausted)
  then show ?thesis
    by (auto simp add: Skip_eq)
qed

text \<open>
  \<open>chunkLong\<close> declares 100 bytes inside a chunk of 12: the seek of its source to 108
  fails with \<open>Invalid seek offset\<close>, and the source stays where it was.
\<close>

theorem Skip_ignores_seek_error_witness:
  "Seek_src (Chunk_ReadSeeker bytes_ReadSeeker) (file' chunkLong) (ucast (Skip_pos chunkLong)) 0
     = ((8, Some (ErrorString ''Invalid seek offset'')), file' chunkLong)
   \<and> Skip (Chunk_ReadSeeker bytes_ReadSeeker) chunkLong = chunkLong\<lparr>offset := 100\<rparr>
   \<and> Read (Chunk_ReadSeeker bytes_ReadSeeker) (Skip (Chunk_ReadSeeker bytes_ReadSeeker) chunkLong) 4
     = (([], Some EOF), chunkLong\<lparr>offset := 100\<rparr>)"
proof -
  have h: "Seek_src (Chunk_ReadSeeker bytes_ReadSeeker) (file' chunkLong) (ucast (Skip_pos chunkLong)) 0
     = ((8, Some (ErrorString ''Invalid seek offset'')), file' chunkLong)"
    by (simp add: run_defs chunkLong_def chunkShort_def)
  show ?thesis
    using h Skip_ignores_seek_error [of "Chunk_ReadSeeker bytes_ReadSeeker" chunkLong 4 8
        "ErrorString ''Invalid seek offset''"]
    by (simp add: chunkLong_def Read_def)
qed

end
